theory Spec2Isabelle
  imports Main
begin

section \<open>The parsing engine (mona)\<close>

text \<open>
  \<^verbatim>\<open>src/index.js\<close> builds its grammar from the combinators of the mona packages
  (\<^verbatim>\<open>@mona/core\<close>, \<^verbatim>\<open>@mona/combinators\<close>, \<^verbatim>\<open>@mona/strings\<close>, \<^verbatim>\<open>@mona/numbers\<close>,
  \<^verbatim>\<open>@mona/parse\<close>). Their sources are not part of the repository, so each of them is
  modelled from the contract the specification gives for the parsing engine.

  A parser is a pure function of the remaining input. It returns the value it produced
  together with the input that is left, or \<open>None\<close> when it fails; a failed attempt leaves
  nothing behind, so the caller still holds the input it started from.
\<close>

type_synonym 'a parser = "string \<Rightarrow> ('a \<times> string) option"

text \<open>Modelled from the spec: \<^verbatim>\<open>value(v)\<close> of @mona/core, which succeeds with \<open>v\<close> and
  consumes nothing.\<close>

definition value_p :: "'a \<Rightarrow> 'a parser" where
  "value_p v = (\<lambda>s. Some (v, s))"

text \<open>Modelled from the spec: \<^verbatim>\<open>fail()\<close> of @mona/core, the parser that always fails. Its
  message and type arguments only feed diagnostics.\<close>

definition fail_p :: "'a parser" where
  "fail_p = (\<lambda>s. None)"

text \<open>Modelled from the spec: \<^verbatim>\<open>sequence(s => ...)\<close> of @mona/combinators. Every
  \<^verbatim>\<open>s(p)\<close> in the body runs \<open>p\<close> on the input left by the previous step and binds its
  value; the first failing step fails the whole sequence. \<open>bind_p p f\<close> is one such step
  followed by the rest of the body.\<close>

definition bind_p :: "'a parser \<Rightarrow> ('a \<Rightarrow> 'b parser) \<Rightarrow> 'b parser" where
  "bind_p p f = (\<lambda>s. case p s of None \<Rightarrow> None | Some (a, r) \<Rightarrow> f a r)"

text \<open>Modelled from the spec: \<^verbatim>\<open>or(p, q, ...)\<close> of @mona/combinators, ordered choice. The
  second parser is tried only when the first fails, and on the same input. The variadic
  \<^verbatim>\<open>or(a, b, c)\<close> is \<open>or_p a (or_p b c)\<close>.\<close>

definition or_p :: "'a parser \<Rightarrow> 'a parser \<Rightarrow> 'a parser" where
  "or_p p q = (\<lambda>s. case p s of None \<Rightarrow> q s | Some x \<Rightarrow> Some x)"

text \<open>Modelled from the spec: \<^verbatim>\<open>and(p, q, ...)\<close> of @mona/combinators, which runs its
  parsers in order and returns the value of the last one. The variadic \<^verbatim>\<open>and(a, b, c)\<close> is
  \<open>and_p a (and_p b c)\<close>.\<close>

definition and_p :: "'a parser \<Rightarrow> 'b parser \<Rightarrow> 'b parser" where
  "and_p p q = bind_p p (\<lambda>_. q)"

text \<open>Modelled from the spec: \<^verbatim>\<open>followedBy(p, q, ...)\<close> of @mona/combinators, which runs
  \<open>p\<close> and then the other parsers and returns the value of \<open>p\<close>. The variadic
  \<^verbatim>\<open>followedBy(p, q, r)\<close> is \<open>followedBy (followedBy p q) r\<close>.\<close>

definition followedBy :: "'a parser \<Rightarrow> 'b parser \<Rightarrow> 'a parser" where
  "followedBy p q = bind_p p (\<lambda>a. bind_p q (\<lambda>_. value_p a))"

text \<open>Modelled from the spec: \<^verbatim>\<open>maybe(p)\<close> of @mona/combinators. It never fails: when
  \<open>p\<close> fails the result is the absent value (\<^verbatim>\<open>undefined\<close> in JavaScript) and no input is
  consumed.\<close>

definition maybe :: "'a parser \<Rightarrow> 'a option parser" where
  "maybe p = or_p (bind_p p (\<lambda>a. value_p (Some a))) (value_p None)"

text \<open>Modelled from the spec: \<^verbatim>\<open>eof()\<close> of @mona/core, which succeeds only when no input
  is left.\<close>

definition eof :: "bool parser" where
  "eof = (\<lambda>s. if s = [] then Some (True, s) else None)"

text \<open>Modelled from the spec: \<^verbatim>\<open>label(p, name)\<close> of @mona/core, which only names \<open>p\<close> for
  error messages.\<close>

definition label :: "'a parser \<Rightarrow> string \<Rightarrow> 'a parser" where
  "label p name = p"

text \<open>Modelled from the spec: \<^verbatim>\<open>string(str)\<close> of @mona/strings, the literal matcher. It
  consumes exactly \<open>str\<close> when the input starts with it, character for character.\<close>

definition string_p :: "string \<Rightarrow> string parser" where
  "string_p str = (\<lambda>s. if take (length str) s = str then Some (str, drop (length str) s) else None)"

text \<open>Modelled from the spec: \<^verbatim>\<open>noneOf(chars)\<close> of @mona/strings, which consumes one
  character that does not occur in \<open>chars\<close> and fails at the end of the input.\<close>

definition noneOf :: "string \<Rightarrow> char parser" where
  "noneOf chars = (\<lambda>s. case s of [] \<Rightarrow> None | c # r \<Rightarrow> if c \<in> set chars then None else Some (c, r))"

text \<open>Modelled from the spec: \<^verbatim>\<open>text(p)\<close> of @mona/strings, which applies the character
  parser \<open>p\<close> as often as it succeeds (possibly never) and returns the characters as one
  string. A parser that succeeds without consuming input would keep mona in this loop for
  ever; the model returns \<open>None\<close> for it. \<open>noneOf\<close> always consumes.\<close>

function text_p :: "char parser \<Rightarrow> string parser" where
  "text_p p s =
     (case p s of
        None \<Rightarrow> Some ([], s)
      | Some (c, r) \<Rightarrow>
          if length r < length s
          then (case text_p p r of None \<Rightarrow> None | Some (cs, r') \<Rightarrow> Some (c # cs, r'))
          else None)"
  by pat_completeness auto
termination
  by (relation "measure (\<lambda>(p, s). length s)") auto

declare text_p.simps [simp del]

text \<open>Modelled from the spec: the whitespace characters of @mona/strings (space, tab,
  line feed, carriage return).\<close>

definition whitespace :: "char \<Rightarrow> bool" where
  "whitespace c \<longleftrightarrow> c = CHR '' '' \<or> c = CHR 0x09 \<or> c = CHR 0x0A \<or> c = CHR 0x0D"

text \<open>Modelled from the spec: \<^verbatim>\<open>spaces()\<close> of @mona/strings, which consumes one or more
  whitespace characters and returns a single space.\<close>

definition spaces :: "string parser" where
  "spaces = (\<lambda>s. if takeWhile whitespace s = [] then None
                  else Some ('' '', dropWhile whitespace s))"

text \<open>Decimal digits and their values.\<close>

definition digit :: "char \<Rightarrow> bool" where
  "digit c \<longleftrightarrow> c \<in> set ''0123456789''"

definition digit_val :: "char \<Rightarrow> nat" where
  "digit_val c = length (takeWhile (\<lambda>d. d \<noteq> c) ''0123456789'')"

definition parseInt :: "string \<Rightarrow> nat" where
  "parseInt ds = foldl (\<lambda>n c. 10 * n + digit_val c) 0 ds"

text \<open>Modelled from the spec: \<^verbatim>\<open>natural()\<close> of @mona/numbers, one or more decimal digits
  read as a number. JavaScript numbers are doubles; the model keeps the exact value.\<close>

definition natural :: "nat parser" where
  "natural = (\<lambda>s. if takeWhile digit s = [] then None
                   else Some (parseInt (takeWhile digit s), dropWhile digit s))"

text \<open>Modelled from the spec: \<^verbatim>\<open>integer()\<close> of @mona/numbers, a natural number with an
  optional sign in front.\<close>

definition integer :: "int parser" where
  "integer =
     bind_p (maybe (or_p (string_p ''+'') (string_p ''-''))) (\<lambda>sign.
     bind_p natural (\<lambda>num.
     value_p (int num * (if sign = Some ''-'' then - 1 else 1))))"

text \<open>Modelled from the spec: \<^verbatim>\<open>parse(parser, string, opts)\<close> of @mona/parse. It runs the
  parser on the whole string and returns its value; where mona throws its parse error the
  model returns \<open>None\<close>. The options do not reach the grammar.\<close>

definition parse :: "'a parser \<Rightarrow> string \<Rightarrow> 'a option" where
  "parse p s = (case p s of None \<Rightarrow> None | Some (v, r) \<Rightarrow> Some v)"


section \<open>The calendar (moment)\<close>

text \<open>
  Dates come from the moment library, which is not part of the repository either. A
  moment is modelled by its local calendar fields; the month is zero-based as in
  JavaScript. \<^verbatim>\<open>toDate()\<close> and \<^verbatim>\<open>moment(date)\<close> convert between a moment and a
  JavaScript \<^verbatim>\<open>Date\<close> of the same instant and are the identity on these fields.
\<close>

record moment =
  m_year :: int
  m_month :: nat
  m_date :: nat
  m_hour :: nat
  m_minute :: nat
  m_second :: nat
  m_millisecond :: nat

definition isLeapYear :: "int \<Rightarrow> bool" where
  "isLeapYear y \<longleftrightarrow> (y mod 4 = 0 \<and> y mod 100 \<noteq> 0) \<or> y mod 400 = 0"

definition daysInMonth :: "int \<Rightarrow> nat \<Rightarrow> nat" where
  "daysInMonth y m =
     (if m = 1 then (if isLeapYear y then 29 else 28)
      else if m = 3 \<or> m = 5 \<or> m = 8 \<or> m = 10 then 30
      else 31)"

text \<open>Modelled from the spec: \<^verbatim>\<open>moment([year, month, day])\<close> followed by
  \<^verbatim>\<open>isValid()\<close>: midnight of the given day when the triple is a day of the Gregorian
  calendar, and \<open>None\<close> for a moment that is not valid.\<close>

definition moment_array :: "int \<Rightarrow> nat \<Rightarrow> int \<Rightarrow> moment option" where
  "moment_array y m d =
     (if m < 12 \<and> 1 \<le> d \<and> d \<le> int (daysInMonth y m)
      then Some \<lparr>m_year = y, m_month = m, m_date = nat d,
                 m_hour = 0, m_minute = 0, m_second = 0, m_millisecond = 0\<rparr>
      else None)"

text \<open>Modelled from the spec: \<^verbatim>\<open>startOf('day')\<close>, which truncates a moment to the
  midnight that begins its day.\<close>

definition startOf_day :: "moment \<Rightarrow> moment" where
  "startOf_day mom = mom\<lparr>m_hour := 0, m_minute := 0, m_second := 0, m_millisecond := 0\<rparr>"

definition prev_day :: "moment \<Rightarrow> moment" where
  "prev_day mom =
     (if 1 < m_date mom then mom\<lparr>m_date := m_date mom - 1\<rparr>
      else if 0 < m_month mom
      then mom\<lparr>m_month := m_month mom - 1,
                m_date := daysInMonth (m_year mom) (m_month mom - 1)\<rparr>
      else mom\<lparr>m_year := m_year mom - 1, m_month := 11, m_date := 31\<rparr>)"

definition next_day :: "moment \<Rightarrow> moment" where
  "next_day mom =
     (if m_date mom < daysInMonth (m_year mom) (m_month mom)
      then mom\<lparr>m_date := m_date mom + 1\<rparr>
      else if m_month mom < 11 then mom\<lparr>m_month := m_month mom + 1, m_date := 1\<rparr>
      else mom\<lparr>m_year := m_year mom + 1, m_month := 0, m_date := 1\<rparr>)"

definition add_days :: "int \<Rightarrow> moment \<Rightarrow> moment" where
  "add_days n mom = (if 0 \<le> n then (next_day ^^ nat n) mom else (prev_day ^^ nat (- n)) mom)"

definition add_months :: "int \<Rightarrow> moment \<Rightarrow> moment" where
  "add_months n mom =
     (let t = m_year mom * 12 + int (m_month mom) + n;
          y = t div 12;
          m = nat (t mod 12)
      in mom\<lparr>m_year := y, m_month := m, m_date := min (m_date mom) (daysInMonth y m)\<rparr>)"

text \<open>Modelled from the spec: \<^verbatim>\<open>subtract(unit, amount)\<close>, calendar subtraction. Days and
  weeks move day by day through the calendar; months and years move by whole months and
  keep the day of the month, clamped to the length of the month reached. The time of day
  is kept. The grammar only produces the four units below.\<close>

definition subtract :: "moment \<Rightarrow> string \<Rightarrow> int \<Rightarrow> moment" where
  "subtract mom unit amount =
     (if unit = ''day'' then add_days (- amount) mom
      else if unit = ''week'' then add_days (- (7 * amount)) mom
      else if unit = ''month'' then add_months (- amount) mom
      else if unit = ''year'' then add_months (- (12 * amount)) mom
      else mom)"

definition monthsShort :: "string list" where
  "monthsShort = [''Jan'', ''Feb'', ''Mar'', ''Apr'', ''May'', ''Jun'',
                  ''Jul'', ''Aug'', ''Sep'', ''Oct'', ''Nov'', ''Dec'']"

definition months :: "string list" where
  "months = [''January'', ''February'', ''March'', ''April'', ''May'', ''June'', ''July'',
             ''August'', ''September'', ''October'', ''November'', ''December'']"

fun index_of :: "'a \<Rightarrow> 'a list \<Rightarrow> nat option" where
  "index_of x [] = None"
| "index_of x (y # ys) = (if x = y then Some 0 else map_option Suc (index_of x ys))"

text \<open>Modelled from the spec: the text-to-month lookup of the calendar, which resolves
  the abbreviated and the full English month names to the zero-based month.\<close>

definition text_to_month :: "string \<Rightarrow> nat option" where
  "text_to_month str =
     (case index_of str monthsShort of
        Some m \<Rightarrow> Some m
      | None \<Rightarrow> index_of str months)"

text \<open>Modelled from the spec: \<^verbatim>\<open>moment(str, format)\<close> followed by \<^verbatim>\<open>isValid()\<close> and the
  getter \<^verbatim>\<open>formatted[unit]()\<close>; the result is \<open>None\<close> where the moment is not valid. The
  format tables of moment are not part of the repository. Following the specification,
  the month formats \<^verbatim>\<open>MMM\<close> and \<^verbatim>\<open>M\<close> resolve the token against the table of
  abbreviated and full English month names, and \<^verbatim>\<open>YYYY\<close> accepts a token of exactly
  four digits, read as a number. The grammar uses no other combination of format and
  unit. moment itself parses forgivingly unless it is asked to be strict; whatever the
  library accepts beyond the contract written here is outside this model.\<close>

definition moment_format :: "string \<Rightarrow> string \<Rightarrow> string \<Rightarrow> nat option" where
  "moment_format str format unit =
     (if unit = ''month'' \<and> (format = ''MMM'' \<or> format = ''M'') then text_to_month str
      else if unit = ''year'' \<and> format = ''YYYY''
      then (if length str = 4 \<and> list_all digit str then Some (parseInt str) else None)
      else None)"

section \<open>The date grammar (src/index.js)\<close>

text \<open>
  Every parser of \<^verbatim>\<open>src/index.js\<close> that reads the clock (\<^verbatim>\<open>moment()\<close>) takes the current
  moment as the argument \<open>now\<close>. One call of \<^verbatim>\<open>parseDate\<close> reads the clock several
  times while it builds its parsers; the model gives all of them the same moment.

  The names of the source are kept. \<^verbatim>\<open>now()\<close> is \<open>now_p\<close>, and the variables
  \<^verbatim>\<open>_month\<close>, \<^verbatim>\<open>_day\<close>, \<^verbatim>\<open>_year\<close>, \<^verbatim>\<open>_interval\<close> and \<^verbatim>\<open>_intervalUnit\<close> are written
  with a prime.
\<close>

subsection \<open>Component parsers\<close>

text \<open>The loop of \<^verbatim>\<open>momentParser\<close> over its formats: the first format that gives a valid
  moment decides.\<close>

fun momentParser_formats :: "string \<Rightarrow> string \<Rightarrow> string list \<Rightarrow> nat parser" where
  "momentParser_formats unit str [] = fail_p"
| "momentParser_formats unit str (format # formats) =
     (case moment_format str format unit of
        Some v \<Rightarrow> value_p v
      | None \<Rightarrow> momentParser_formats unit str formats)"

definition momentParser :: "string \<Rightarrow> string list \<Rightarrow> nat parser" where
  "momentParser unit formats =
     label (bind_p (text_p (noneOf '' '')) (\<lambda>str. momentParser_formats unit str formats)) unit"

definition month :: "nat parser" where
  "month = momentParser ''month'' [''MMM'', ''M'']"

definition day :: "int parser" where
  "day = label (bind_p integer (\<lambda>dayNum.
           if dayNum \<ge> 1 \<and> dayNum \<le> 31 then value_p dayNum else fail_p)) ''day''"

definition year :: "nat parser" where
  "year = momentParser ''year'' [''YYYY'']"

subsection \<open>Phrase parsers\<close>

text \<open>\<^verbatim>\<open>today\<close> and \<^verbatim>\<open>now\<close> are the start of the current day, \<^verbatim>\<open>yesterday\<close> the start
  of the day before.\<close>

definition now_p :: "moment \<Rightarrow> moment parser" where
  "now_p now = and_p (or_p (string_p ''today'') (string_p ''now''))
                     (value_p (startOf_day now))"

definition yesterday :: "moment \<Rightarrow> moment parser" where
  "yesterday now = and_p (string_p ''yesterday'')
                         (value_p (startOf_day (subtract now ''day'' 1)))"

text \<open>The count and the unit of a relative date. The plural \<^verbatim>\<open>s\<close> is consumed and
  dropped.\<close>

definition interval :: "int parser" where
  "interval = or_p integer (and_p (string_p ''the'') (value_p 1))"

definition intervalUnit :: "string parser" where
  "intervalUnit =
     bind_p (or_p (string_p ''day'')
            (or_p (string_p ''week'')
            (or_p (string_p ''month'')
                  (string_p ''year'')))) (\<lambda>unit.
     bind_p (maybe (string_p ''s'')) (\<lambda>_.
     value_p unit))"

text \<open>The three absolute forms. Each builds a moment from its components and fails,
  like any other mismatch, when moment does not find the date valid.\<close>

definition monthAndYear :: "moment parser" where
  "monthAndYear =
     bind_p month (\<lambda>month'.
     bind_p spaces (\<lambda>_.
     bind_p year (\<lambda>year'.
     case moment_array (int year') month' 1 of
       Some mo \<Rightarrow> value_p mo
     | None \<Rightarrow> fail_p)))"

definition monthAndDay :: "moment \<Rightarrow> moment parser" where
  "monthAndDay now =
     bind_p month (\<lambda>month'.
     bind_p spaces (\<lambda>_.
     bind_p day (\<lambda>day'.
     case moment_array (m_year now) month' day' of
       Some mo \<Rightarrow> value_p mo
     | None \<Rightarrow> fail_p)))"

definition fullDate :: "moment parser" where
  "fullDate =
     bind_p month (\<lambda>month'.
     bind_p spaces (\<lambda>_.
     bind_p day (\<lambda>day'.
     bind_p (maybe (string_p '','')) (\<lambda>_.
     bind_p (maybe spaces) (\<lambda>_.
     bind_p year (\<lambda>year'.
     case moment_array (int year') month' day' of
       Some mo \<Rightarrow> value_p mo
     | None \<Rightarrow> fail_p))))))"

definition localeDate :: "moment \<Rightarrow> moment parser" where
  "localeDate now = or_p fullDate (or_p (monthAndDay now) monthAndYear)"

subsection \<open>The recursive part of the grammar\<close>

text \<open>
  \<^verbatim>\<open>referenceDate\<close> calls \<^verbatim>\<open>englishDateParser\<close>, which calls \<^verbatim>\<open>relativeDate\<close>, which
  calls \<^verbatim>\<open>referenceDate\<close>. The recursion ends because a preposition has been consumed
  before the grammar is entered again. The rules below tell the definition which input
  each combinator hands to its arguments.
\<close>

lemma bind_p_cong [fundef_cong]:
  "p s = p' s' \<Longrightarrow> s = s' \<Longrightarrow> (\<And>a r. p' s' = Some (a, r) \<Longrightarrow> f a r = f' a r)
   \<Longrightarrow> bind_p p f s = bind_p p' f' s'"
  by (auto simp: bind_p_def split: option.splits)

lemma or_p_cong [fundef_cong]:
  "p s = p' s' \<Longrightarrow> s = s' \<Longrightarrow> (p' s' = None \<Longrightarrow> q s = q' s')
   \<Longrightarrow> or_p p q s = or_p p' q' s'"
  by (auto simp: or_p_def split: option.splits)

lemma and_p_cong [fundef_cong]:
  "p s = p' s' \<Longrightarrow> s = s' \<Longrightarrow> (\<And>a r. p' s' = Some (a, r) \<Longrightarrow> q r = q' r)
   \<Longrightarrow> and_p p q s = and_p p' q' s'"
  by (auto simp: and_p_def bind_p_def split: option.splits)

lemma followedBy_cong [fundef_cong]:
  "p s = p' s' \<Longrightarrow> s = s' \<Longrightarrow> (\<And>a r. p' s' = Some (a, r) \<Longrightarrow> q r = q' r)
   \<Longrightarrow> followedBy p q s = followedBy p' q' s'"
  by (auto simp: followedBy_def bind_p_def split: option.splits)

text \<open>A parser is \<open>bounded\<close> when it never returns more input than it was given.\<close>

definition bounded :: "'a parser \<Rightarrow> bool" where
  "bounded p \<longleftrightarrow> (\<forall>s v r. p s = Some (v, r) \<longrightarrow> length r \<le> length s)"

lemma boundedD: "bounded p \<Longrightarrow> p s = Some (v, r) \<Longrightarrow> length r \<le> length s"
  by (auto simp: bounded_def)

lemma bounded_value_p [simp]: "bounded (value_p v)"
  by (simp add: bounded_def value_p_def)

lemma bounded_string_p [simp]: "bounded (string_p str)"
  by (auto simp: bounded_def string_p_def split: if_splits)

lemma bounded_spaces [simp]: "bounded spaces"
  by (auto simp: bounded_def spaces_def length_dropWhile_le split: if_splits)

lemma bounded_natural [simp]: "bounded natural"
  by (auto simp: bounded_def natural_def length_dropWhile_le split: if_splits)

lemma bounded_bind_p [simp]: "bounded p \<Longrightarrow> (\<And>a. bounded (f a)) \<Longrightarrow> bounded (bind_p p f)"
  unfolding bounded_def bind_p_def
  by (fastforce split: option.splits)

lemma bounded_or_p [simp]: "bounded p \<Longrightarrow> bounded q \<Longrightarrow> bounded (or_p p q)"
  unfolding bounded_def or_p_def
  by (fastforce split: option.splits)

lemma bounded_and_p [simp]: "bounded p \<Longrightarrow> bounded q \<Longrightarrow> bounded (and_p p q)"
  by (simp add: and_p_def)

lemma bounded_maybe [simp]: "bounded p \<Longrightarrow> bounded (maybe p)"
  by (simp add: maybe_def)

lemma bounded_integer [simp]: "bounded integer"
  by (simp add: integer_def)

lemma bounded_interval [simp]: "bounded interval"
  by (simp add: interval_def)

lemma bounded_intervalUnit [simp]: "bounded intervalUnit"
  by (simp add: intervalUnit_def)

lemma string_p_consumes:
  "string_p str s = Some (v, r) \<Longrightarrow> length r + length str = length s"
proof -
  assume "string_p str s = Some (v, r)"
  then have t: "take (length str) s = str" and r: "r = drop (length str) s"
    by (auto simp: string_p_def split: if_splits)
  from t have "length (take (length str) s) = length str"
    by simp
  then have "length str \<le> length s"
    by simp
  with r show ?thesis by simp
qed

function referenceDate :: "moment \<Rightarrow> moment parser"
  and relativeDate :: "moment \<Rightarrow> moment parser"
  and englishDateParser :: "moment \<Rightarrow> moment parser"
where
  "referenceDate now s =
     or_p (and_p (string_p ''ago'') (value_p (startOf_day now)))
          (and_p (or_p (string_p ''from'')
                 (or_p (string_p ''before'')
                       (string_p ''until'')))
          (and_p spaces
                 (englishDateParser now))) s"
| "relativeDate now s =
     bind_p (or_p interval (value_p 1)) (\<lambda>interval'.
     bind_p (maybe spaces) (\<lambda>_.
     bind_p intervalUnit (\<lambda>intervalUnit'.
     bind_p spaces (\<lambda>_.
     bind_p (referenceDate now) (\<lambda>reference.
     value_p (subtract reference intervalUnit' interval')))))) s"
| "englishDateParser now s =
     followedBy
       (followedBy
          (and_p (maybe spaces)
                 (or_p (localeDate now)
                 (or_p (relativeDate now)
                 (or_p (now_p now)
                       (yesterday now)))))
          (maybe spaces))
       eof s"
  by pat_completeness auto
termination
proof (relation "measure (\<lambda>x. case x of
            Inl (now, s) \<Rightarrow> 3 * length s
          | Inr (Inl (now, s)) \<Rightarrow> 3 * length s + 1
          | Inr (Inr (now, s)) \<Rightarrow> 3 * length s + 2)", goal_cases)
  case 1
  show ?case by simp
next
  case (2 now s a r aa ra)
  from 2(2) have "length r < length s"
    by (auto simp: or_p_def split: option.splits dest!: string_p_consumes)
  moreover from 2(3) have "length ra \<le> length r"
    by (rule boundedD [OF bounded_spaces])
  ultimately show ?case by simp
next
  case (3 now s a r aa ra aaa rb aab rc)
  have "length r \<le> length s"
    using 3(1) by (rule boundedD [rotated]) simp
  moreover have "length ra \<le> length r"
    using 3(2) by (rule boundedD [rotated]) simp
  moreover have "length rb \<le> length ra"
    using 3(3) by (rule boundedD [rotated]) simp
  moreover have "length rc \<le> length rb"
    using 3(4) by (rule boundedD [rotated]) simp
  ultimately show ?case by simp
next
  case (4 now s a r)
  have "length r \<le> length s"
    using 4(1) by (rule boundedD [rotated]) simp
  then show ?case by simp
qed

declare referenceDate.simps [simp del] relativeDate.simps [simp del]
  englishDateParser.simps [simp del]

text \<open>The entry point of the module.\<close>

definition parseDate :: "moment \<Rightarrow> string \<Rightarrow> moment option" where
  "parseDate now string = parse (englishDateParser now) string"

section \<open>Properties of the engine and the grammar\<close>

text \<open>The decimal numeral of a natural number, as it is written in an input string.\<close>

fun decimal :: "nat \<Rightarrow> string" where
  "decimal n = (if n < 10 then [''0123456789'' ! n]
                else decimal (n div 10) @ [''0123456789'' ! (n mod 10)])"

declare decimal.simps [simp del]

lemma digit_nth: "d < 10 \<Longrightarrow> digit (''0123456789'' ! d)"
  unfolding digit_def by (rule nth_mem) simp

lemma digit_val_nth: "d < 10 \<Longrightarrow> digit_val (''0123456789'' ! d) = d"
proof -
  have "list_all (\<lambda>d. digit_val (''0123456789'' ! d) = d) [0..<10]"
    by code_simp
  moreover assume "d < 10"
  ultimately show ?thesis
    by (simp add: list_all_iff)
qed

lemma decimal_not_Nil [simp]: "decimal n \<noteq> []"
  by (subst decimal.simps) simp

lemma decimal_digits: "c \<in> set (decimal n) \<Longrightarrow> digit c"
proof (induction n arbitrary: c rule: decimal.induct)
  case (1 n)
  show ?case
  proof (cases "n < 10")
    case True
    with "1.prems" show ?thesis
      by (subst (asm) decimal.simps) (simp add: digit_nth)
  next
    case False
    with "1.prems" have "c \<in> set (decimal (n div 10)) \<or> c = ''0123456789'' ! (n mod 10)"
      by (subst (asm) decimal.simps) auto
    with False "1.IH" show ?thesis
      by (auto simp: digit_nth)
  qed
qed

lemma parseInt_snoc: "parseInt (ds @ [c]) = 10 * parseInt ds + digit_val c"
  by (simp add: parseInt_def)

lemma parseInt_decimal [simp]: "parseInt (decimal n) = n"
proof (induction n rule: decimal.induct)
  case (1 n)
  show ?case
  proof (cases "n < 10")
    case True
    then show ?thesis
      by (subst decimal.simps) (simp add: parseInt_def digit_val_nth)
  next
    case False
    with "1.IH" have "parseInt (decimal (n div 10)) = n div 10" by simp
    with False show ?thesis
      by (subst decimal.simps) (simp add: parseInt_snoc digit_val_nth)
  qed
qed

lemma length_decimal_le: "n < 10 ^ k \<Longrightarrow> 0 < k \<Longrightarrow> length (decimal n) \<le> k"
proof (induction n arbitrary: k rule: decimal.induct)
  case (1 n)
  show ?case
  proof (cases "n < 10")
    case True
    with "1.prems" show ?thesis
      by (subst decimal.simps) simp
  next
    case False
    from "1.prems" obtain j where k: "k = Suc j"
      by (cases k) auto
    have j: "0 < j"
    proof (rule ccontr)
      assume "\<not> 0 < j"
      with k "1.prems" False show False by simp
    qed
    from "1.prems" k have "n div 10 < 10 ^ j"
      by (simp add: less_mult_imp_div_less mult.commute)
    with "1.IH" False j have "length (decimal (n div 10)) \<le> j" by simp
    with False k show ?thesis
      by (subst decimal.simps) simp
  qed
qed

lemma length_decimal_ge: "10 ^ k \<le> n \<Longrightarrow> k < length (decimal n)"
proof (induction n arbitrary: k rule: decimal.induct)
  case (1 n)
  show ?case
  proof (cases "n < 10")
    case True
    have "k = 0"
    proof (rule ccontr)
      assume "k \<noteq> 0"
      then obtain j where "k = Suc j" by (cases k) auto
      moreover have "(1::nat) \<le> 10 ^ j" by simp
      ultimately have "10 \<le> (10::nat) ^ k" by simp
      with "1.prems" True show False by simp
    qed
    then show ?thesis
      by (subst decimal.simps) simp
  next
    case False
    show ?thesis
    proof (cases k)
      case 0
      then show ?thesis by (subst decimal.simps) simp
    next
      case (Suc j)
      with "1.prems" have "10 ^ j \<le> n div 10"
        by (simp add: less_eq_div_iff_mult_less_eq mult.commute)
      with "1.IH" False have "j < length (decimal (n div 10))" by simp
      with False Suc show ?thesis
        by (subst decimal.simps) simp
    qed
  qed
qed

lemma length_decimal_4: "1000 \<le> n \<Longrightarrow> n < 10000 \<Longrightarrow> length (decimal n) = 4"
  using length_decimal_le [of n 4] length_decimal_ge [of 3 n] by simp

lemma length_decimal_lt4: "n < 1000 \<Longrightarrow> length (decimal n) \<noteq> 4"
  using length_decimal_le [of n 3] by simp


subsection \<open>Running the combinators\<close>

lemma value_p_apply [simp]: "value_p v s = Some (v, s)"
  by (simp add: value_p_def)

lemma fail_p_apply [simp]: "fail_p s = None"
  by (simp add: fail_p_def)

lemma bind_p_apply [simp]: "bind_p p f s = (case p s of None \<Rightarrow> None | Some (a, r) \<Rightarrow> f a r)"
  by (simp add: bind_p_def)

lemma or_p_apply [simp]: "or_p p q s = (case p s of None \<Rightarrow> q s | Some x \<Rightarrow> Some x)"
  by (simp add: or_p_def)

lemma and_p_apply [simp]: "and_p p q s = (case p s of None \<Rightarrow> None | Some (a, r) \<Rightarrow> q r)"
  by (simp add: and_p_def)

lemma followedBy_apply [simp]:
  "followedBy p q s =
     (case p s of None \<Rightarrow> None
      | Some (a, r) \<Rightarrow> (case q r of None \<Rightarrow> None | Some (b, r') \<Rightarrow> Some (a, r')))"
  by (simp add: followedBy_def split: option.splits)

lemma maybe_apply [simp]:
  "maybe p s = (case p s of None \<Rightarrow> Some (None, s) | Some (a, r) \<Rightarrow> Some (Some a, r))"
  by (simp add: maybe_def split: option.splits)

lemma eof_apply [simp]: "eof s = (if s = [] then Some (True, []) else None)"
  by (simp add: eof_def)

lemma label_apply [simp]: "label p name = p"
  by (simp add: label_def)

lemma string_p_Nil [simp]: "string_p [] s = Some ([], s)"
  by (simp add: string_p_def)

lemma string_p_Cons_Nil [simp]: "string_p (c # cs) [] = None"
  by (simp add: string_p_def)

lemma string_p_Cons_Cons [simp]:
  "string_p (c # cs) (d # ds) =
     (if c = d then (case string_p cs ds of None \<Rightarrow> None | Some (v, r) \<Rightarrow> Some (c # v, r))
      else None)"
  by (auto simp: string_p_def)

lemma string_p_Some_iff: "string_p str s = Some (v, r) \<longleftrightarrow> v = str \<and> s = str @ r"
proof
  assume "string_p str s = Some (v, r)"
  then have "take (length str) s = str" "v = str" "r = drop (length str) s"
    by (auto simp: string_p_def split: if_splits)
  then show "v = str \<and> s = str @ r"
    by (metis append_take_drop_id)
next
  assume "v = str \<and> s = str @ r"
  then show "string_p str s = Some (v, r)"
    by (simp add: string_p_def)
qed

lemma text_p_noneOf:
  "text_p (noneOf cs) s = Some (takeWhile (\<lambda>c. c \<notin> set cs) s, dropWhile (\<lambda>c. c \<notin> set cs) s)"
proof (induction s)
  case Nil
  show ?case by (subst text_p.simps) (simp add: noneOf_def)
next
  case (Cons a s)
  then show ?case by (subst text_p.simps) (simp add: noneOf_def)
qed

lemma noneOf_space [simp]: "(c \<notin> set '' '') = (c \<noteq> CHR '' '')"
  by simp

lemma spaces_Nil [simp]: "spaces [] = None"
  by (simp add: spaces_def)

lemma spaces_Cons [simp]:
  "spaces (c # s) = (if whitespace c then Some ('' '', dropWhile whitespace s) else None)"
  by (simp add: spaces_def)

lemma maybe_spaces: "maybe spaces s = Some (fst (the (maybe spaces s)), dropWhile whitespace s)"
  by (cases s) auto

lemma natural_Nil [simp]: "natural [] = None"
  by (simp add: natural_def)

lemma natural_nondigit [simp]: "\<not> digit c \<Longrightarrow> natural (c # s) = None"
  by (simp add: natural_def)

lemma integer_nondigit:
  "\<not> digit c \<Longrightarrow> c \<noteq> CHR ''+'' \<Longrightarrow> c \<noteq> CHR ''-'' \<Longrightarrow> integer (c # s) = None"
  by (simp add: integer_def)

lemma integer_Nil [simp]: "integer [] = None"
  by (simp add: integer_def)

subsection \<open>Numerals in the input\<close>

lemma hd_decimal: "\<exists>c cs. decimal n = c # cs \<and> digit c"
proof -
  obtain c cs where "decimal n = c # cs"
    using decimal_not_Nil [of n] by (cases "decimal n") auto
  moreover from this have "digit c"
    using decimal_digits [of c n] by simp
  ultimately show ?thesis by blast
qed

lemma digit_not_sign: "digit c \<Longrightarrow> c \<noteq> CHR ''+'' \<and> c \<noteq> CHR ''-'' \<and> c \<noteq> CHR '' '' \<and> \<not> whitespace c"
  by (auto simp: digit_def whitespace_def)

lemma takeWhile_digit_decimal:
  "r = [] \<or> \<not> digit (hd r) \<Longrightarrow> takeWhile digit (decimal n @ r) = decimal n"
  by (cases r) (auto simp: takeWhile_append2 decimal_digits takeWhile_eq_all_conv)

lemma dropWhile_digit_decimal:
  "r = [] \<or> \<not> digit (hd r) \<Longrightarrow> dropWhile digit (decimal n @ r) = r"
  by (cases r) (auto simp: dropWhile_append2 decimal_digits)

lemma natural_decimal:
  "r = [] \<or> \<not> digit (hd r) \<Longrightarrow> natural (decimal n @ r) = Some (n, r)"
  by (simp add: natural_def takeWhile_digit_decimal dropWhile_digit_decimal)

lemma integer_decimal:
  assumes "r = [] \<or> \<not> digit (hd r)"
  shows "integer (decimal n @ r) = Some (int n, r)"
proof -
  obtain c cs where d: "decimal n = c # cs" and c: "digit c"
    using hd_decimal by blast
  from c have "string_p ''+'' (c # cs @ r) = None" "string_p ''-'' (c # cs @ r) = None"
    using digit_not_sign [of c] by auto
  moreover have "natural (c # cs @ r) = Some (n, r)"
    using natural_decimal [OF assms, of n] d by simp
  ultimately show ?thesis
    by (simp add: integer_def d)
qed

lemma token_decimal:
  "r = [] \<or> hd r = CHR '' '' \<Longrightarrow>
   takeWhile (\<lambda>c. c \<noteq> CHR '' '') (decimal n @ r) = decimal n \<and>
   dropWhile (\<lambda>c. c \<noteq> CHR '' '') (decimal n @ r) = r"
proof -
  assume r: "r = [] \<or> hd r = CHR '' ''"
  have "\<And>c. c \<in> set (decimal n) \<Longrightarrow> c \<noteq> CHR '' ''"
    using decimal_digits digit_not_sign by blast
  with r show ?thesis
    by (cases r) (auto simp: takeWhile_append2 dropWhile_append2 takeWhile_eq_all_conv)
qed

lemma dropWhile_whitespace_decimal [simp]:
  "dropWhile whitespace (decimal n @ r) = decimal n @ r"
proof -
  obtain c cs where "decimal n = c # cs" "digit c"
    using hd_decimal by blast
  then show ?thesis
    using digit_not_sign [of c] by simp
qed

subsection \<open>The component parsers\<close>

lemma month_apply:
  "month s =
     (case index_of (takeWhile (\<lambda>c. c \<noteq> CHR '' '') s) monthsShort of
        Some m \<Rightarrow> Some (m, dropWhile (\<lambda>c. c \<noteq> CHR '' '') s)
      | None \<Rightarrow>
          (case index_of (takeWhile (\<lambda>c. c \<noteq> CHR '' '') s) months of
             Some m \<Rightarrow> Some (m, dropWhile (\<lambda>c. c \<noteq> CHR '' '') s)
           | None \<Rightarrow> None))"
  by (simp add: month_def momentParser_def text_p_noneOf moment_format_def text_to_month_def
      split: option.splits)

lemma year_apply:
  "year s =
     (if length (takeWhile (\<lambda>c. c \<noteq> CHR '' '') s) = 4
         \<and> list_all digit (takeWhile (\<lambda>c. c \<noteq> CHR '' '') s)
      then Some (parseInt (takeWhile (\<lambda>c. c \<noteq> CHR '' '') s),
                 dropWhile (\<lambda>c. c \<noteq> CHR '' '') s)
      else None)"
  by (simp add: year_def momentParser_def text_p_noneOf moment_format_def)

lemma index_of_Some: "index_of x xs = Some i \<Longrightarrow> i < length xs \<and> xs ! i = x"
  by (induction xs arbitrary: i) (auto split: if_splits)

lemma index_of_None: "index_of x xs = None \<longleftrightarrow> x \<notin> set xs"
  by (induction xs) auto

lemma index_of_nth: "distinct xs \<Longrightarrow> i < length xs \<Longrightarrow> index_of (xs ! i) xs = Some i"
proof (induction xs arbitrary: i)
  case Nil
  then show ?case by simp
next
  case (Cons a xs)
  then show ?case by (cases i) auto
qed

lemma length_months [simp]: "length monthsShort = 12" "length months = 12"
  by (simp_all add: monthsShort_def months_def)

lemma distinct_months: "distinct monthsShort" "distinct months"
  by (simp_all add: monthsShort_def months_def)

lemma split_token:
  assumes "\<forall>c\<in>set xs. P c" and "r = [] \<or> \<not> P (hd r)"
  shows "takeWhile P (xs @ r) = xs" and "dropWhile P (xs @ r) = r"
proof -
  from assms(2) have "takeWhile P r = []" "dropWhile P r = r"
    by (cases r; simp)+
  with assms(1) show "takeWhile P (xs @ r) = xs" and "dropWhile P (xs @ r) = r"
    by (induction xs) simp_all
qed

lemma month_names_shape:
  assumes "m < 12" and "nm = monthsShort ! m \<or> nm = months ! m"
  shows "CHR '' '' \<notin> set nm" and "\<exists>c cs. nm = c # cs \<and> c \<in> set ''JFMASOND''"
proof -
  have "list_all (\<lambda>nm. CHR '' '' \<notin> set nm \<and> (case nm of [] \<Rightarrow> False | c # cs \<Rightarrow> c \<in> set ''JFMASOND''))
          (monthsShort @ months)"
    by (simp add: monthsShort_def months_def)
  moreover from assms have "nm \<in> set (monthsShort @ months)"
    by (auto simp: nth_mem)
  ultimately have *: "CHR '' '' \<notin> set nm \<and> (case nm of [] \<Rightarrow> False | c # cs \<Rightarrow> c \<in> set ''JFMASOND'')"
    unfolding list_all_iff by blast
  then show "CHR '' '' \<notin> set nm" by simp
  from * show "\<exists>c cs. nm = c # cs \<and> c \<in> set ''JFMASOND''"
    by (cases nm) auto
qed

lemma long_name_short:
  "m < 12 \<Longrightarrow> index_of (months ! m) monthsShort = None \<or> index_of (months ! m) monthsShort = Some m"
proof -
  have "list_all (\<lambda>m. index_of (months ! m) monthsShort = None \<or> index_of (months ! m) monthsShort = Some m) [0..<12]"
    by code_simp
  moreover assume "m < 12"
  ultimately show ?thesis by (simp add: list_all_iff)
qed

lemma month_name:
  assumes "m < 12" and "nm = monthsShort ! m \<or> nm = months ! m"
    and "r = [] \<or> hd r = CHR '' ''"
  shows "month (nm @ r) = Some (m, r)"
proof -
  from assms(1,2) have sp: "CHR '' '' \<notin> set nm"
    by (rule month_names_shape)
  then have "\<forall>c\<in>set nm. c \<noteq> CHR '' ''"
    by blast
  moreover from assms(3) have "r = [] \<or> \<not> hd r \<noteq> CHR '' ''"
    by simp
  ultimately have tok: "takeWhile (\<lambda>c. c \<noteq> CHR '' '') (nm @ r) = nm"
    and rest: "dropWhile (\<lambda>c. c \<noteq> CHR '' '') (nm @ r) = r"
    by (rule split_token)+
  from assms(2) show ?thesis
  proof
    assume "nm = monthsShort ! m"
    with assms(1) have "index_of nm monthsShort = Some m"
      by (simp add: index_of_nth distinct_months)
    then show ?thesis by (simp add: month_apply tok rest)
  next
    assume nm: "nm = months ! m"
    with assms(1) have "index_of nm months = Some m"
      by (simp add: index_of_nth distinct_months)
    moreover from long_name_short [OF assms(1)] nm
    have "index_of nm monthsShort = None \<or> index_of nm monthsShort = Some m"
      by simp
    ultimately show ?thesis
      by (auto simp: month_apply tok rest)
  qed
qed

lemma month_Some:
  assumes "month s = Some (m, r)"
  shows "m < 12"
    and "takeWhile (\<lambda>c. c \<noteq> CHR '' '') s = monthsShort ! m
         \<or> takeWhile (\<lambda>c. c \<noteq> CHR '' '') s = months ! m"
    and "r = dropWhile (\<lambda>c. c \<noteq> CHR '' '') s"
  using assms
  by (auto simp: month_apply split: option.splits dest!: index_of_Some)

lemma month_Some_hd:
  assumes "month s = Some (m, r)"
  shows "\<exists>c cs. s = c # cs \<and> c \<in> set ''JFMASOND''"
proof -
  let ?tok = "takeWhile (\<lambda>c. c \<noteq> CHR '' '') s"
  from month_Some [OF assms] have "m < 12" "?tok = monthsShort ! m \<or> ?tok = months ! m"
    by auto
  then obtain c cs where "?tok = c # cs" "c \<in> set ''JFMASOND''"
    using month_names_shape(2) by blast
  then show ?thesis
    by (cases s) (auto split: if_splits)
qed

lemma month_None:
  "s = [] \<or> hd s \<notin> set ''JFMASOND'' \<Longrightarrow> month s = None"
  using month_Some_hd [of s] by (cases "month s") auto

lemma localeDate_month_None: "month s = None \<Longrightarrow> localeDate now s = None"
  by (simp add: localeDate_def fullDate_def monthAndDay_def monthAndYear_def)

subsection \<open>The top of the grammar\<close>

abbreviation dates :: "moment \<Rightarrow> moment parser" where
  "dates now \<equiv> or_p (localeDate now) (or_p (relativeDate now) (or_p (now_p now) (yesterday now)))"

lemma maybe_spaces_rest: "\<exists>v. maybe spaces s = Some (v, dropWhile whitespace s)"
  by (cases s) auto

lemma englishDateParser_apply:
  "englishDateParser now s =
     (case dates now (dropWhile whitespace s) of
        None \<Rightarrow> None
      | Some (d, r) \<Rightarrow> if list_all whitespace r then Some (d, []) else None)"
proof -
  obtain v where v: "maybe spaces s = Some (v, dropWhile whitespace s)"
    using maybe_spaces_rest by blast
  show ?thesis
  proof (cases "dates now (dropWhile whitespace s)")
    case None
    with v show ?thesis
      by (subst englishDateParser.simps) (simp del: maybe_apply or_p_apply)
  next
    case (Some a)
    obtain d r where a: "a = (d, r)" by (cases a)
    obtain w where w: "maybe spaces r = Some (w, dropWhile whitespace r)"
      using maybe_spaces_rest by blast
    have "dropWhile whitespace r = [] \<longleftrightarrow> list_all whitespace r"
      by (simp add: list_all_iff dropWhile_eq_Nil_conv)
    with v w Some a show ?thesis
      by (subst englishDateParser.simps) (simp del: maybe_apply or_p_apply)
  qed
qed

lemma parseDate_apply:
  "parseDate now s =
     (case dates now (dropWhile whitespace s) of
        None \<Rightarrow> None
      | Some (d, r) \<Rightarrow> if list_all whitespace r then Some d else None)"
  by (simp add: parseDate_def parse_def englishDateParser_apply del: or_p_apply split: option.splits)

lemma englishDateParser_parseDate:
  "englishDateParser now s = map_option (\<lambda>d. (d, [])) (parseDate now s)"
  by (simp add: parseDate_apply englishDateParser_apply del: or_p_apply split: option.splits)

subsection \<open>Relative dates\<close>

lemma not_relative_capital:
  assumes "c \<in> set ''JFMASOND''"
  shows "relativeDate now (c # s) = None"
proof -
  from assms have "interval (c # s) = None"
    by (auto simp: interval_def integer_def digit_def)
  moreover from assms have "maybe spaces (c # s) = Some (None, c # s)"
    by (auto simp: whitespace_def)
  moreover from assms have "intervalUnit (c # s) = None"
    by (auto simp: intervalUnit_def)
  ultimately show ?thesis
    by (subst relativeDate.simps) (simp del: maybe_apply)
qed

lemma not_keyword_capital:
  assumes "c \<in> set ''JFMASOND''"
  shows "now_p now (c # s) = None" and "yesterday now (c # s) = None"
  using assms by (auto simp: now_p_def yesterday_def)

lemma interval_decimal:
  "r = [] \<or> \<not> digit (hd r) \<Longrightarrow> interval (decimal n @ r) = Some (int n, r)"
  by (simp add: interval_def integer_decimal)

definition units :: "string set" where
  "units = {''day'', ''week'', ''month'', ''year''}"

definition plurals :: "string set" where
  "plurals = {'''', ''s''}"

definition prepositions :: "string set" where
  "prepositions = {''from'', ''before'', ''until''}"

lemma intervalUnit_word:
  assumes "u \<in> units" and "pl \<in> plurals" and "r = [] \<or> hd r = CHR '' ''"
  shows "intervalUnit (u @ pl @ r) = Some (u, r)"
  using assms by (cases r) (auto simp: units_def plurals_def intervalUnit_def)

lemma units_hd: "u \<in> units \<Longrightarrow> \<exists>c cs. u = c # cs \<and> \<not> whitespace c"
  by (auto simp: units_def whitespace_def)

lemma relativeDate_phrase:
  assumes "u \<in> units" and "pl \<in> plurals"
  shows "relativeDate now (decimal n @ '' '' @ u @ pl @ '' '' @ rest) =
           (case referenceDate now (dropWhile whitespace rest) of
              None \<Rightarrow> None
            | Some (d, r) \<Rightarrow> Some (subtract d u (int n), r))"
proof -
  obtain c cs where u: "u = c # cs" and c: "\<not> whitespace c"
    using units_hd [OF assms(1)] by blast
  have 1: "interval (decimal n @ CHR '' '' # u @ pl @ CHR '' '' # rest)
             = Some (int n, CHR '' '' # u @ pl @ CHR '' '' # rest)"
    by (rule interval_decimal) (simp add: digit_def)
  have 2: "dropWhile whitespace (u @ pl @ CHR '' '' # rest) = u @ pl @ CHR '' '' # rest"
    using c by (simp add: u)
  have 3: "intervalUnit (u @ pl @ CHR '' '' # rest) = Some (u, CHR '' '' # rest)"
    using intervalUnit_word [OF assms, of "CHR '' '' # rest"] by simp
  have w: "whitespace CHR '' ''"
    by (simp add: whitespace_def)
  show ?thesis
    by (subst relativeDate.simps) (simp add: 1 2 3 w split: option.splits)
qed

lemma referenceDate_ago: "referenceDate now (''ago'' @ r) = Some (startOf_day now, r)"
  by (subst referenceDate.simps) simp

lemma englishDateParser_dropWhile:
  "englishDateParser now (dropWhile whitespace s) = englishDateParser now s"
  by (simp add: englishDateParser_apply del: or_p_apply)

lemma referenceDate_preposition:
  assumes "prep \<in> prepositions"
  shows "referenceDate now (prep @ '' '' @ rest) = englishDateParser now rest"
proof -
  have w: "whitespace CHR '' ''"
    by (simp add: whitespace_def)
  from assms show ?thesis
    by (subst referenceDate.simps)
       (auto simp: prepositions_def w englishDateParser_dropWhile)
qed

lemma dates_numeral:
  "dates now (decimal n @ r) = relativeDate now (decimal n @ r)"
proof -
  obtain c cs where d: "decimal n = c # cs" and c: "digit c"
    using hd_decimal by blast
  from c have "c \<notin> set ''JFMASOND''"
    by (auto simp: digit_def)
  then have "localeDate now (c # cs @ r) = None"
    by (intro localeDate_month_None month_None) simp
  moreover from c have "now_p now (c # cs @ r) = None" "yesterday now (c # cs @ r) = None"
    by (auto simp: digit_def now_p_def yesterday_def)
  ultimately show ?thesis
    by (simp add: d split: option.splits)
qed

lemma parseDate_ago:
  assumes "u \<in> units" and "pl \<in> plurals"
  shows "parseDate now (decimal n @ '' '' @ u @ pl @ '' ago'')
           = Some (subtract (startOf_day now) u (int n))"
proof -
  have "relativeDate now (decimal n @ '' '' @ u @ pl @ '' '' @ ''ago'')
          = Some (subtract (startOf_day now) u (int n), [])"
    using referenceDate_ago [of now "[]"]
    by (simp only: relativeDate_phrase [OF assms]) (simp add: whitespace_def)
  then have "dates now (decimal n @ '' '' @ u @ pl @ '' ago'')
          = Some (subtract (startOf_day now) u (int n), [])"
    by (simp only: dates_numeral) simp
  then show ?thesis
    by (simp add: parseDate_apply del: or_p_apply)
qed

lemma parseDate_relative:
  assumes "u \<in> units" and "pl \<in> plurals" and "prep \<in> prepositions"
  shows "parseDate now (decimal n @ '' '' @ u @ pl @ '' '' @ prep @ '' '' @ rest)
           = map_option (\<lambda>d. subtract d u (int n)) (parseDate now rest)"
proof -
  from assms(3) obtain c cs where p: "prep = c # cs" and c: "\<not> whitespace c"
    by (auto simp: prepositions_def whitespace_def)
  have "relativeDate now (decimal n @ '' '' @ u @ pl @ '' '' @ (prep @ '' '' @ rest))
          = (case englishDateParser now rest of None \<Rightarrow> None
             | Some (d, r) \<Rightarrow> Some (subtract d u (int n), r))"
    using c referenceDate_preposition [OF assms(3), of now rest]
    by (simp only: relativeDate_phrase [OF assms(1,2)]) (simp add: p)
  then have "dates now (decimal n @ '' '' @ u @ pl @ '' '' @ prep @ '' '' @ rest)
          = (case englishDateParser now rest of None \<Rightarrow> None
             | Some (d, r) \<Rightarrow> Some (subtract d u (int n), r))"
    by (simp only: dates_numeral)
  then show ?thesis
    by (auto simp add: parseDate_apply [of now "decimal n @ _"] englishDateParser_parseDate
        simp del: or_p_apply split: option.splits)
qed

subsection \<open>Absolute dates\<close>

definition month_names :: "nat \<Rightarrow> string set" where
  "month_names m = {monthsShort ! m, months ! m}"

lemma month_name_space:
  assumes "m < 12" and "nm \<in> month_names m"
  shows "month (nm @ CHR '' '' # r) = Some (m, CHR '' '' # r)"
  using assms month_name [of m nm "CHR '' '' # r"] by (simp add: month_names_def)

lemma spaces_decimal:
  "spaces (CHR '' '' # decimal n @ r) = Some ('' '', decimal n @ r)"
  "spaces (CHR '' '' # decimal n) = Some ('' '', decimal n)"
  using dropWhile_whitespace_decimal [of n "[]"] by (simp_all add: whitespace_def)

lemma day_decimal:
  assumes "r = [] \<or> \<not> digit (hd r)"
  shows "day (decimal n @ r) = (if 1 \<le> n \<and> n \<le> 31 then Some (int n, r) else None)"
  by (simp add: day_def integer_decimal [OF assms])

lemma year_decimal:
  "year (decimal n) = (if 1000 \<le> n \<and> n < 10000 then Some (n, []) else None)"
proof -
  have tok: "takeWhile (\<lambda>c. c \<noteq> CHR '' '') (decimal n) = decimal n"
    and rest: "dropWhile (\<lambda>c. c \<noteq> CHR '' '') (decimal n) = []"
    using token_decimal [of "[]" n] by simp_all
  have dig: "list_all digit (decimal n)"
    by (simp add: list_all_iff decimal_digits)
  have "length (decimal n) = 4 \<longleftrightarrow> 1000 \<le> n \<and> n < 10000"
    using length_decimal_le [of n 3] length_decimal_le [of n 4] length_decimal_ge [of 3 n]
      length_decimal_ge [of 4 n]
    by (cases "n < 1000"; cases "n < 10000") auto
  then show ?thesis
    by (simp add: year_apply tok rest dig)
qed

lemma year_Nil [simp]: "year [] = None"
  by (simp add: year_apply)

lemma daysInMonth_le: "daysInMonth y m \<le> 31"
  by (simp add: daysInMonth_def)

lemma fullDate_month_day:
  assumes "m < 12" and "nm \<in> month_names m"
  shows "fullDate (nm @ '' '' @ decimal d) = None"
  by (simp add: fullDate_def month_name_space [OF assms] spaces_decimal
      day_decimal [of "[]", simplified] del: spaces_Cons)

lemma monthAndDay_month_day:
  assumes "m < 12" and "nm \<in> month_names m"
  shows "monthAndDay now (nm @ '' '' @ decimal d) =
           map_option (\<lambda>mo. (mo, [])) (moment_array (m_year now) m (int d))"
  using daysInMonth_le [of "m_year now" m]
  by (auto simp add: monthAndDay_def month_name_space [OF assms] spaces_decimal
      day_decimal [of "[]", simplified] moment_array_def simp del: spaces_Cons)

lemma monthAndYear_month_year:
  assumes "m < 12" and "nm \<in> month_names m"
  shows "monthAndYear (nm @ '' '' @ decimal y) =
           (if 1000 \<le> y \<and> y < 10000
            then map_option (\<lambda>mo. (mo, [])) (moment_array (int y) m 1) else None)"
  using assms
  by (auto simp add: monthAndYear_def month_name_space [OF assms] spaces_decimal
      year_decimal moment_array_def daysInMonth_def simp del: spaces_Cons)

lemma dates_capital:
  assumes "m < 12" and "nm \<in> month_names m"
  shows "dates now (nm @ r) = localeDate now (nm @ r)"
proof -
  from assms obtain c cs where nm: "nm = c # cs" and c: "c \<in> set ''JFMASOND''"
    using month_names_shape(2) [of m nm] by (auto simp: month_names_def)
  show ?thesis
    using not_relative_capital [OF c, of now "cs @ r"] not_keyword_capital [OF c, of now "cs @ r"]
    by (simp add: nm split: option.splits)
qed

lemma parseDate_month_number:
  assumes "m < 12" and "nm \<in> month_names m"
  shows "parseDate now (nm @ '' '' @ decimal n) =
           (case moment_array (m_year now) m (int n) of
              Some mo \<Rightarrow> Some mo
            | None \<Rightarrow> if 1000 \<le> n \<and> n < 10000 then moment_array (int n) m 1 else None)"
proof -
  from assms obtain c cs where nm: "nm = c # cs" and c: "c \<in> set ''JFMASOND''"
    using month_names_shape(2) [of m nm] by (auto simp: month_names_def)
  then have ws: "dropWhile whitespace (nm @ '' '' @ decimal n) = nm @ '' '' @ decimal n"
    by (auto simp: whitespace_def)
  have "localeDate now (nm @ '' '' @ decimal n) =
          (case moment_array (m_year now) m (int n) of
              Some mo \<Rightarrow> Some (mo, [])
            | None \<Rightarrow> if 1000 \<le> n \<and> n < 10000
                       then map_option (\<lambda>mo. (mo, [])) (moment_array (int n) m 1) else None)"
    unfolding localeDate_def or_p_apply fullDate_month_day [OF assms]
      monthAndDay_month_day [OF assms] monthAndYear_month_year [OF assms]
    by (simp split: option.splits)
  then show ?thesis
    unfolding parseDate_apply ws dates_capital [OF assms]
    by (auto split: option.splits)
qed

lemma fullDate_full:
  assumes "m < 12" and "nm \<in> month_names m" and "sep = '', '' \<or> sep = '' ''"
  shows "fullDate (nm @ '' '' @ decimal d @ sep @ decimal y) =
           (if 1 \<le> d \<and> d \<le> 31 \<and> 1000 \<le> y \<and> y < 10000
            then map_option (\<lambda>mo. (mo, [])) (moment_array (int y) m (int d)) else None)"
proof -
  from assms(3) have sep: "sep @ decimal y = [] \<or> \<not> digit (hd (sep @ decimal y))"
    by (auto simp: digit_def)
  have d: "day (decimal d @ sep @ decimal y)
             = (if 1 \<le> d \<and> d \<le> 31 then Some (int d, sep @ decimal y) else None)"
    by (rule day_decimal [OF sep])
  obtain c cs where y: "decimal y = c # cs" and c: "digit c"
    using hd_decimal by blast
  from c have c': "c \<noteq> CHR '','' \<and> \<not> whitespace c"
    by (auto simp: digit_def whitespace_def)
  have w: "whitespace CHR '' ''"
    by (simp add: whitespace_def)
  have rest: "bind_p (maybe (string_p '','')) (\<lambda>_. bind_p (maybe spaces) (\<lambda>_. year)) (sep @ decimal y)
                = year (decimal y)"
    using assms(3) c' dropWhile_whitespace_decimal [of y "[]"]
    by (auto simp: y w)
  have "fullDate (nm @ '' '' @ decimal d @ sep @ decimal y) =
          (if 1 \<le> d \<and> d \<le> 31
           then (case bind_p (maybe (string_p '','')) (\<lambda>_. bind_p (maybe spaces) (\<lambda>_. year)) (sep @ decimal y) of
                   None \<Rightarrow> None
                 | Some (y', r) \<Rightarrow> map_option (\<lambda>mo. (mo, r)) (moment_array (int y') m (int d)))
           else None)"
    by (simp add: fullDate_def month_name_space [OF assms(1,2)] spaces_decimal d
        del: spaces_Cons maybe_apply split: option.splits)
  then show ?thesis
    by (simp only: rest year_decimal) (simp split: option.splits)
qed

lemma parseDate_full:
  assumes "m < 12" and "nm \<in> month_names m" and "sep = '', '' \<or> sep = '' ''"
    and "1 \<le> d" and "d \<le> daysInMonth (int y) m" and "1000 \<le> y" and "y < 10000"
  shows "parseDate now (nm @ '' '' @ decimal d @ sep @ decimal y) =
           Some \<lparr>m_year = int y, m_month = m, m_date = d,
                 m_hour = 0, m_minute = 0, m_second = 0, m_millisecond = 0\<rparr>"
proof -
  from assms(1,2) obtain c cs where nm: "nm = c # cs" and c: "c \<in> set ''JFMASOND''"
    using month_names_shape(2) [of m nm] by (auto simp: month_names_def)
  then have ws: "dropWhile whitespace (nm @ '' '' @ decimal d @ sep @ decimal y)
                   = nm @ '' '' @ decimal d @ sep @ decimal y"
    by (auto simp: whitespace_def)
  from assms(5) have "d \<le> 31"
    using daysInMonth_le [of "int y" m] by simp
  with assms have "fullDate (nm @ '' '' @ decimal d @ sep @ decimal y) =
      Some (\<lparr>m_year = int y, m_month = m, m_date = d,
             m_hour = 0, m_minute = 0, m_second = 0, m_millisecond = 0\<rparr>, [])"
    unfolding fullDate_full [OF assms(1-3)] by (simp add: moment_array_def)
  then have "localeDate now (nm @ '' '' @ decimal d @ sep @ decimal y) =
      Some (\<lparr>m_year = int y, m_month = m, m_date = d,
             m_hour = 0, m_minute = 0, m_second = 0, m_millisecond = 0\<rparr>, [])"
    by (simp add: localeDate_def)
  then show ?thesis
    unfolding parseDate_apply ws dates_capital [OF assms(1,2)]
    by simp
qed


lemma subtract_days_2:
  "2 < m_date mom \<Longrightarrow> subtract mom ''day'' 2 = mom\<lparr>m_date := m_date mom - 2\<rparr>"
  by (simp add: subtract_def add_days_def prev_day_def eval_nat_numeral)

subsection \<open>What the keyword parsers accept\<close>

lemma now_p_Some:
  "now_p now s = Some (d, r) \<Longrightarrow> (s = ''today'' @ r \<or> s = ''now'' @ r) \<and> d = startOf_day now"
  by (auto simp: now_p_def or_p_def and_p_def bind_p_def value_p_def string_p_Some_iff
      simp del: or_p_apply and_p_apply bind_p_apply value_p_apply string_p_Cons_Cons
      split: option.splits)

lemma yesterday_Some:
  "yesterday now s = Some (d, r) \<Longrightarrow>
     s = ''yesterday'' @ r \<and> d = startOf_day (subtract now ''day'' 1)"
  by (auto simp: yesterday_def and_p_def bind_p_def value_p_def string_p_Some_iff
      simp del: and_p_apply bind_p_apply value_p_apply string_p_Cons_Cons
      split: option.splits)

lemma maybe_s_Some:
  "maybe (string_p ''s'') s = Some (v, r) \<Longrightarrow> s = r \<or> s = ''s'' @ r"
  by (cases "string_p ''s'' s")
     (auto simp: string_p_Some_iff simp del: string_p_Cons_Cons)

lemma intervalUnit_Some:
  assumes "intervalUnit s = Some (u, r)"
  shows "u \<in> units \<and> (s = u @ r \<or> s = u @ ''s'' @ r)"
proof -
  from assms obtain q v where
    1: "or_p (string_p ''day'') (or_p (string_p ''week'')
          (or_p (string_p ''month'') (string_p ''year''))) s = Some (u, q)"
    and 2: "maybe (string_p ''s'') q = Some (v, r)"
    by (auto simp: intervalUnit_def bind_p_def value_p_def
        simp del: or_p_apply bind_p_apply value_p_apply maybe_apply split: option.splits)
  from 1 have "u \<in> units \<and> s = u @ q"
    by (auto simp: or_p_def units_def string_p_Some_iff
        simp del: or_p_apply string_p_Cons_Cons split: option.splits)
  with maybe_s_Some [OF 2] show ?thesis
    by auto
qed

lemma interval_Some:
  "interval s = Some (n, r) \<Longrightarrow> integer s = Some (n, r) \<or> (n = 1 \<and> s = ''the'' @ r)"
  by (auto simp: interval_def or_p_def and_p_def bind_p_def value_p_def string_p_Some_iff
      simp del: or_p_apply and_p_apply bind_p_apply value_p_apply string_p_Cons_Cons
      split: option.splits)

lemma referenceDate_Some:
  assumes "referenceDate now s = Some (d, r)"
  shows "s = ''ago'' @ r \<or> (\<exists>prep\<in>prepositions. \<exists>rest. s = prep @ rest)"
proof (cases "string_p ''ago'' s")
  case None
  with assms obtain v q where
    "or_p (string_p ''from'') (or_p (string_p ''before'') (string_p ''until'')) s = Some (v, q)"
    by (subst (asm) referenceDate.simps)
       (auto simp: or_p_def and_p_def bind_p_def
        simp del: or_p_apply and_p_apply bind_p_apply string_p_Cons_Cons
        split: option.splits)
  then have "v \<in> prepositions \<and> s = v @ q"
    by (auto simp: or_p_def prepositions_def string_p_Some_iff
        simp del: or_p_apply string_p_Cons_Cons split: option.splits)
  then show ?thesis by blast
next
  case (Some a)
  then obtain v q where a: "string_p ''ago'' s = Some (v, q)" by (cases a) auto
  with assms have "q = r"
    by (subst (asm) referenceDate.simps)
       (auto simp: or_p_def and_p_def bind_p_def value_p_def
        simp del: or_p_apply and_p_apply bind_p_apply value_p_apply string_p_Cons_Cons)
  with a show ?thesis
    by (simp add: string_p_Some_iff del: string_p_Cons_Cons)
qed


lemmas run_grammar =
  parseDate_apply whitespace_def digit_def localeDate_month_None month_None
  relativeDate.simps referenceDate.simps englishDateParser_apply
  interval_def integer_def natural_def intervalUnit_def now_p_def yesterday_def

section \<open>The claims of the specification\<close>

text \<open>A moment for the examples: 14:30:05.007 on 31 March 2013.\<close>

definition example_now :: moment where
  "example_now = \<lparr>m_year = 2013, m_month = 2, m_date = 31,
                   m_hour = 14, m_minute = 30, m_second = 5, m_millisecond = 7\<rparr>"

lemma decimal_numerals:
  "decimal 0 = ''0''" "decimal 1 = ''1''" "decimal (Suc 0) = ''1''" "decimal 2 = ''2''"
  "decimal 3 = ''3''" "decimal 8 = ''8''" "decimal 13 = ''13''"
  "decimal 20 = ''20''" "decimal 30 = ''30''" "decimal 2013 = ''2013''"
  by (simp_all add: decimal.simps)





text \<open>
  C3. In \<^verbatim>\<open>1 month from 2 days before Aug 30\<close> the reference clause is resolved first:
  \<^verbatim>\<open>2 days before Aug 30\<close> is August 28 of the current year, and one month is then
  subtracted from that date, which gives July 28.
\<close>

theorem nested_reference_resolves:
  "parseDate now ''2 days before Aug 30''
     = Some \<lparr>m_year = m_year now, m_month = 7, m_date = 28,
             m_hour = 0, m_minute = 0, m_second = 0, m_millisecond = 0\<rparr>
   \<and> parseDate now ''1 month from 2 days before Aug 30''
     = map_option (\<lambda>reference. subtract reference ''month'' 1)
         (parseDate now ''2 days before Aug 30'')
   \<and> parseDate now ''1 month from 2 days before Aug 30''
     = Some \<lparr>m_year = m_year now, m_month = 6, m_date = 28,
             m_hour = 0, m_minute = 0, m_second = 0, m_millisecond = 0\<rparr>"
proof -
  have u: "''day'' \<in> units" "''month'' \<in> units" and p: "''s'' \<in> plurals" "'''' \<in> plurals"
    and q: "''before'' \<in> prepositions" "''from'' \<in> prepositions"
    by (simp_all add: units_def plurals_def prepositions_def)
  have n: "''Aug'' \<in> month_names 7"
    by (simp add: month_names_def monthsShort_def)
  have "parseDate now (''Aug'' @ '' '' @ decimal 30)
          = Some \<lparr>m_year = m_year now, m_month = 7, m_date = 30,
                  m_hour = 0, m_minute = 0, m_second = 0, m_millisecond = 0\<rparr>"
    using parseDate_month_number [OF _ n, of now 30]
    by (simp add: moment_array_def daysInMonth_def)
  then have aug: "parseDate now ''Aug 30''
          = Some \<lparr>m_year = m_year now, m_month = 7, m_date = 30,
                  m_hour = 0, m_minute = 0, m_second = 0, m_millisecond = 0\<rparr>"
    by (simp add: decimal_numerals)
  have "parseDate now (decimal 2 @ '' '' @ ''day'' @ ''s'' @ '' '' @ ''before'' @ '' '' @ ''Aug 30'')
          = Some (subtract \<lparr>m_year = m_year now, m_month = 7, m_date = 30,
                  m_hour = 0, m_minute = 0, m_second = 0, m_millisecond = 0\<rparr> ''day'' 2)"
    unfolding parseDate_relative [OF u(1) p(1) q(1)] aug by simp
  then have inner: "parseDate now ''2 days before Aug 30''
          = Some \<lparr>m_year = m_year now, m_month = 7, m_date = 28,
                  m_hour = 0, m_minute = 0, m_second = 0, m_millisecond = 0\<rparr>"
    by (simp add: decimal_numerals subtract_days_2)
  have "parseDate now (decimal 1 @ '' '' @ ''month'' @ '''' @ '' '' @ ''from'' @ '' '' @ ''2 days before Aug 30'')
          = map_option (\<lambda>reference. subtract reference ''month'' 1)
              (parseDate now ''2 days before Aug 30'')"
    unfolding parseDate_relative [OF u(2) p(2) q(2)] by simp
  then have outer: "parseDate now ''1 month from 2 days before Aug 30''
          = map_option (\<lambda>reference. subtract reference ''month'' 1)
              (parseDate now ''2 days before Aug 30'')"
    by (simp add: decimal_numerals)
  have "subtract \<lparr>m_year = m_year now, m_month = 7, m_date = 28,
                  m_hour = 0, m_minute = 0, m_second = 0, m_millisecond = 0\<rparr> ''month'' 1
          = \<lparr>m_year = m_year now, m_month = 6, m_date = 28,
                  m_hour = 0, m_minute = 0, m_second = 0, m_millisecond = 0\<rparr>"
    by (simp add: subtract_def add_months_def daysInMonth_def)
  with inner outer show ?thesis
    by simp
qed


theorem nested_reference_resolves_witness:
  "parseDate example_now ''2 days before Aug 30''
     = Some \<lparr>m_year = 2013, m_month = 7, m_date = 28,
             m_hour = 0, m_minute = 0, m_second = 0, m_millisecond = 0\<rparr>
   \<and> parseDate example_now ''1 month from 2 days before Aug 30''
     = Some \<lparr>m_year = 2013, m_month = 6, m_date = 28,
             m_hour = 0, m_minute = 0, m_second = 0, m_millisecond = 0\<rparr>"
proof -
  have y: "m_year example_now = 2013"
    by (simp add: example_now_def)
  from nested_reference_resolves [of example_now]
  have "parseDate example_now ''2 days before Aug 30''
          = Some \<lparr>m_year = m_year example_now, m_month = 7, m_date = 28,
                  m_hour = 0, m_minute = 0, m_second = 0, m_millisecond = 0\<rparr>"
    and "parseDate example_now ''1 month from 2 days before Aug 30''
          = Some \<lparr>m_year = m_year example_now, m_month = 6, m_date = 28,
                  m_hour = 0, m_minute = 0, m_second = 0, m_millisecond = 0\<rparr>"
    by blast+
  then show ?thesis
    by (simp only: y)
qed

text \<open>
  C4. When \<^verbatim>\<open>N unit before R\<close> parses, \<^verbatim>\<open>N unit from R\<close> and \<^verbatim>\<open>N unit until R\<close> parse
  to the same date, and that date is the date of \<open>R\<close> moved back by \<open>N\<close> units: the
  interval is subtracted whichever preposition is written.
\<close>

theorem prepositions_equivalent:
  assumes "u \<in> units" and "pl \<in> plurals"
    and "parseDate now (decimal N @ '' '' @ u @ pl @ '' before '' @ R) = Some d"
  shows "parseDate now (decimal N @ '' '' @ u @ pl @ '' from '' @ R) = Some d
       \<and> parseDate now (decimal N @ '' '' @ u @ pl @ '' until '' @ R) = Some d
       \<and> (\<exists>reference. parseDate now R = Some reference
                        \<and> d = subtract reference u (int N))"
proof -
  have p: "''from'' \<in> prepositions" "''before'' \<in> prepositions" "''until'' \<in> prepositions"
    by (simp_all add: prepositions_def)
  note rel = parseDate_relative [OF assms(1,2), of _ now N R]
  from assms(3) rel [OF p(2)] have "map_option (\<lambda>d. subtract d u (int N)) (parseDate now R) = Some d"
    by simp
  with rel [OF p(1)] rel [OF p(3)] show ?thesis
    by auto
qed

theorem prepositions_equivalent_witness:
  "''day'' \<in> units \<and> ''s'' \<in> plurals
   \<and> parseDate example_now ''3 days before yesterday''
       = Some \<lparr>m_year = 2013, m_month = 2, m_date = 27,
               m_hour = 0, m_minute = 0, m_second = 0, m_millisecond = 0\<rparr>
   \<and> parseDate example_now ''3 days from yesterday''
       = Some \<lparr>m_year = 2013, m_month = 2, m_date = 27,
               m_hour = 0, m_minute = 0, m_second = 0, m_millisecond = 0\<rparr>
   \<and> parseDate example_now ''3 days until yesterday''
       = Some \<lparr>m_year = 2013, m_month = 2, m_date = 27,
               m_hour = 0, m_minute = 0, m_second = 0, m_millisecond = 0\<rparr>"
proof -
  let ?d = "\<lparr>m_year = 2013, m_month = 2, m_date = 27,
             m_hour = 0, m_minute = 0, m_second = 0, m_millisecond = 0\<rparr>"
  have u: "''day'' \<in> units" and p: "''s'' \<in> plurals" and b: "''before'' \<in> prepositions"
    by (simp_all add: units_def plurals_def prepositions_def)
  have y: "parseDate example_now ''yesterday''
             = Some (startOf_day (subtract example_now ''day'' 1))"
    by (simp add: parseDate_apply whitespace_def localeDate_month_None month_None
        relativeDate.simps interval_def integer_def digit_def intervalUnit_def now_p_def
        yesterday_def)
  have v: "subtract (startOf_day (subtract example_now ''day'' 1)) ''day'' 3 = ?d"
    by (simp add: subtract_def add_days_def prev_day_def startOf_day_def example_now_def
        eval_nat_numeral)
  have h: "parseDate example_now (decimal 3 @ '' '' @ ''day'' @ ''s'' @ '' before '' @ ''yesterday'')
             = Some ?d"
    using parseDate_relative [OF u p b, of example_now 3 "''yesterday''"] y v by simp
  from prepositions_equivalent [OF u p h] h u p show ?thesis
    by (simp add: decimal_numerals)
qed





text \<open>
  C7. For every real calendar date with an English month name (abbreviated or full),
  day \<open>D\<close> and four-digit year \<open>Y\<close>, the inputs \<^verbatim>\<open>Mon D, Y\<close> and \<^verbatim>\<open>Mon D Y\<close> both
  parse to midnight of that date; the comma makes no difference.
\<close>

theorem full_date_parses:
  assumes "m < 12" and "nm \<in> month_names m"
    and "1 \<le> D" and "D \<le> daysInMonth (int Y) m" and "1000 \<le> Y" and "Y < 10000"
  shows "parseDate now (nm @ '' '' @ decimal D @ '', '' @ decimal Y)
           = Some \<lparr>m_year = int Y, m_month = m, m_date = D,
                   m_hour = 0, m_minute = 0, m_second = 0, m_millisecond = 0\<rparr>
       \<and> parseDate now (nm @ '' '' @ decimal D @ '' '' @ decimal Y)
           = Some \<lparr>m_year = int Y, m_month = m, m_date = D,
                   m_hour = 0, m_minute = 0, m_second = 0, m_millisecond = 0\<rparr>"
  using parseDate_full [OF assms(1,2) _ assms(3-6), of "'', ''" now]
    parseDate_full [OF assms(1,2) _ assms(3-6), of "'' ''" now]
  by simp

theorem full_date_parses_witness:
  "(7::nat) < 12 \<and> ''Aug'' \<in> month_names 7 \<and> (1::nat) \<le> 20 \<and> 20 \<le> daysInMonth 2013 7
   \<and> (1000::nat) \<le> 2013 \<and> (2013::nat) < 10000
   \<and> parseDate example_now ''Aug 20, 2013''
       = Some \<lparr>m_year = 2013, m_month = 7, m_date = 20,
               m_hour = 0, m_minute = 0, m_second = 0, m_millisecond = 0\<rparr>
   \<and> parseDate example_now ''Aug 20 2013''
       = Some \<lparr>m_year = 2013, m_month = 7, m_date = 20,
               m_hour = 0, m_minute = 0, m_second = 0, m_millisecond = 0\<rparr>"
proof -
  have n: "''Aug'' \<in> month_names 7"
    by (simp add: month_names_def monthsShort_def)
  have d: "20 \<le> daysInMonth (int 2013) 7"
    by (simp add: daysInMonth_def)
  from full_date_parses [of 7 "''Aug''" 20 2013 example_now, OF _ n _ d] n d
  show ?thesis by (simp add: decimal_numerals)
qed

text \<open>
  C8, as the code has it. The interval count written in a relative date is an integer
  numeral, zero included (the code does not ask for a positive count), or the literal
  \<^verbatim>\<open>the\<close>, which stands for 1, and nothing else;
  \<^verbatim>\<open>the day before yesterday\<close> parses to the same date as
  \<^verbatim>\<open>1 day before yesterday\<close>.
\<close>

theorem the_is_one:
  "parseDate now ''the day before yesterday''
     = Some (subtract (startOf_day (subtract now ''day'' 1)) ''day'' 1)
   \<and> parseDate now ''1 day before yesterday''
     = Some (subtract (startOf_day (subtract now ''day'' 1)) ''day'' 1)
   \<and> (interval s = Some (n, r) \<longrightarrow> integer s = Some (n, r) \<or> (n = 1 \<and> s = ''the'' @ r))
   \<and> interval (''the'' @ r') = Some (1, r')
   \<and> (r'' = [] \<or> \<not> digit (hd r'') \<longrightarrow> interval (decimal N @ r'') = Some (int N, r''))
   \<and> (u \<in> units \<and> pl \<in> plurals \<longrightarrow>
        parseDate now (decimal N @ '' '' @ u @ pl @ '' ago'')
          = Some (subtract (startOf_day now) u (int N)))"
proof -
  have 1: "parseDate now ''the day before yesterday''
             = Some (subtract (startOf_day (subtract now ''day'' 1)) ''day'' 1)"
    by (simp add: run_grammar)
  have 2: "parseDate now ''1 day before yesterday''
             = Some (subtract (startOf_day (subtract now ''day'' 1)) ''day'' 1)"
    by (simp add: run_grammar parseInt_def digit_val_def)
  have 4: "interval (''the'' @ r') = Some (1, r')"
    by (simp add: interval_def integer_def digit_def)
  from 1 2 4 interval_Some [of s n r] interval_decimal [of r'' N] parseDate_ago [of u pl now N]
  show ?thesis
    by blast
qed

theorem the_is_one_witness:
  "interval ''the day'' = Some (1, '' day'')
   \<and> (integer ''the day'' = Some (1, '' day'') \<or> ''the day'' = ''the'' @ '' day'')
   \<and> ''week'' \<in> units \<and> ''s'' \<in> plurals
   \<and> parseDate example_now ''2 weeks ago''
       = Some \<lparr>m_year = 2013, m_month = 2, m_date = 17,
               m_hour = 0, m_minute = 0, m_second = 0, m_millisecond = 0\<rparr>"
proof -
  have i: "interval ''the day'' = Some (1, '' day'')"
    by (simp add: interval_def integer_def digit_def)
  have u: "''week'' \<in> units" and p: "''s'' \<in> plurals"
    by (simp_all add: units_def plurals_def)
  have "subtract (startOf_day example_now) ''week'' 2
          = \<lparr>m_year = 2013, m_month = 2, m_date = 17,
             m_hour = 0, m_minute = 0, m_second = 0, m_millisecond = 0\<rparr>"
    by (simp add: subtract_def add_days_def prev_day_def startOf_day_def example_now_def
        eval_nat_numeral)
  moreover from the_is_one [of example_now "''the day''" 1 "'' day''" "[]" "[]" 2 "''week''" "''s''"] u p
  have "parseDate example_now (decimal 2 @ '' '' @ ''week'' @ ''s'' @ '' ago'')
          = Some (subtract (startOf_day example_now) ''week'' (int 2))"
    by blast
  ultimately show ?thesis
    using i u p by (simp add: decimal_numerals)
qed

text \<open>The count of C8 need not be positive: \<^verbatim>\<open>0 days ago\<close> is accepted and is today.\<close>

theorem zero_count_accepted:
  "parseDate example_now ''0 days ago''
     = Some \<lparr>m_year = 2013, m_month = 2, m_date = 31,
             m_hour = 0, m_minute = 0, m_second = 0, m_millisecond = 0\<rparr>"
proof -
  have "parseDate example_now (decimal 0 @ '' '' @ ''day'' @ ''s'' @ '' ago'')
          = Some (subtract (startOf_day example_now) ''day'' (int 0))"
    by (rule parseDate_ago) (simp_all add: units_def plurals_def)
  then show ?thesis
    by (simp add: decimal_numerals subtract_def add_days_def startOf_day_def example_now_def)
qed

text \<open>
  C9. The end of the input is enforced after the alternation of the four phrase parsers
  and the optional whitespace around it. When the alternative that matched leaves
  anything but whitespace, or when none matches, the whole parse fails; so do
  \<^verbatim>\<open>today please\<close> and \<^verbatim>\<open>please today\<close>.
\<close>

theorem trailing_input_rejected:
  "(dates now (dropWhile whitespace s) = Some (d, r) \<and> \<not> list_all whitespace r
      \<longrightarrow> parseDate now s = None)
   \<and> (dates now (dropWhile whitespace s) = None \<longrightarrow> parseDate now s = None)
   \<and> (parseDate now s = Some d \<longrightarrow>
        (\<exists>r. dates now (dropWhile whitespace s) = Some (d, r) \<and> list_all whitespace r))
   \<and> parseDate now ''today please'' = None
   \<and> parseDate now ''please today'' = None"
proof -
  have "parseDate now ''today please'' = None"
    by (simp add: run_grammar)
  moreover have "parseDate now ''please today'' = None"
    by (simp add: run_grammar)
  ultimately show ?thesis
    by (auto simp add: parseDate_apply simp del: or_p_apply split: option.splits if_splits)
qed

theorem trailing_input_rejected_witness:
  "dates example_now (dropWhile whitespace ''  today please'')
     = Some (startOf_day example_now, '' please'')
   \<and> \<not> list_all whitespace '' please''
   \<and> parseDate example_now ''  today please'' = None"
proof -
  have a: "dates example_now (dropWhile whitespace ''  today please'')
             = Some (startOf_day example_now, '' please'')"
    by (simp add: run_grammar)
  have b: "\<not> list_all whitespace '' please''"
    by (simp add: whitespace_def)
  from trailing_input_rejected [of example_now "''  today please''" "startOf_day example_now"
      "'' please''"] a b
  show ?thesis by blast
qed

text \<open>
  C10. The keyword tokens are literal matchers with lower-case literals. Whenever one of
  the keyword parsers succeeds, the input starts with exactly the lower-case spelling of
  its keyword; \<^verbatim>\<open>Today\<close> and \<^verbatim>\<open>3 Days ago\<close> produce no date, and neither do other
  inputs that spell a keyword with a capital letter.
\<close>

theorem keywords_exact_case:
  "(now_p now s = Some (d, r) \<longrightarrow> s = ''today'' @ r \<or> s = ''now'' @ r)
   \<and> (yesterday now s = Some (d, r) \<longrightarrow> s = ''yesterday'' @ r)
   \<and> (intervalUnit s = Some (u, r) \<longrightarrow> u \<in> units \<and> (s = u @ r \<or> s = u @ ''s'' @ r))
   \<and> (interval s = Some (n, r) \<longrightarrow> integer s = Some (n, r) \<or> (n = 1 \<and> s = ''the'' @ r))
   \<and> (referenceDate now s = Some (d, r) \<longrightarrow>
        s = ''ago'' @ r \<or> (\<exists>prep\<in>prepositions. \<exists>rest. s = prep @ rest))
   \<and> parseDate now ''Today'' = None
   \<and> parseDate now ''3 Days ago'' = None
   \<and> parseDate now ''NOW'' = None
   \<and> parseDate now ''Yesterday'' = None
   \<and> parseDate now ''3 days Ago'' = None
   \<and> parseDate now ''3 days Before yesterday'' = None
   \<and> parseDate now ''The day before yesterday'' = None"
proof -
  have "parseDate now ''Today'' = None"
    by (simp add: run_grammar)
  moreover have "parseDate now ''3 Days ago'' = None"
    by (simp add: run_grammar)
  moreover have "parseDate now ''NOW'' = None"
    by (simp add: run_grammar localeDate_def fullDate_def monthAndDay_def monthAndYear_def
        month_apply monthsShort_def months_def)
  moreover have "parseDate now ''Yesterday'' = None"
    by (simp add: run_grammar)
  moreover have "parseDate now ''3 days Ago'' = None"
    by (simp add: run_grammar)
  moreover have "parseDate now ''3 days Before yesterday'' = None"
    by (simp add: run_grammar)
  moreover have "parseDate now ''The day before yesterday'' = None"
    by (simp add: run_grammar)
  ultimately show ?thesis
    using now_p_Some [of now s d r] yesterday_Some [of now s d r] intervalUnit_Some [of s u r]
      interval_Some [of s n r] referenceDate_Some [of now s d r]
    by blast
qed

theorem keywords_exact_case_witness:
  "now_p example_now ''now'' = Some (startOf_day example_now, [])
   \<and> yesterday example_now ''yesterday'' = Some (startOf_day (subtract example_now ''day'' 1), [])
   \<and> intervalUnit ''days'' = Some (''day'', []) \<and> ''day'' \<in> units
   \<and> interval ''the'' = Some (1, [])
   \<and> referenceDate example_now ''ago'' = Some (startOf_day example_now, [])
   \<and> parseDate example_now ''Today'' = None"
proof -
  have a: "now_p example_now ''now'' = Some (startOf_day example_now, [])"
    and b: "yesterday example_now ''yesterday''
              = Some (startOf_day (subtract example_now ''day'' 1), [])"
    and c: "intervalUnit ''days'' = Some (''day'', [])"
    and e: "interval ''the'' = Some (1, [])"
    and f: "referenceDate example_now ''ago'' = Some (startOf_day example_now, [])"
    by (simp_all add: run_grammar)
  from keywords_exact_case [of example_now "''days''" "startOf_day example_now" "[]" "''day''" 1] c
  have "''day'' \<in> units" and "parseDate example_now ''Today'' = None"
    by blast+
  with a b c e f show ?thesis
    by blast
qed

end
